theory Spec2Isabelle
  imports Main "HOL-Library.Sublist" "HOL-Library.Char_ord" "HOL-Library.List_Lexorder"
begin

section \<open>GHAS licensing by tool: the data the script reads\<close>

text \<open>
  The script \<^verbatim>\<open>ghas-licensing-by-tool.js\<close> is one asynchronous function \<open>main\<close>. It asks
  the REST client for the enterprise's billing data, walks the billed repositories, asks
  three more endpoints about each one, and collects committer logins in two JavaScript
  \<open>Set\<close>s. The model below follows that function statement by statement.

  An awaited request either rejects (the client throws) or resolves with a response.
  JSON bodies are typed as the script reads them: only the fields it reads are kept, and a
  field it reads is present. A body without such a field makes the read throw right after
  the request, in the same \<open>try\<close> block or outside any, so it behaves as the rejected
  request does and \<open>Rejected\<close> stands for it too. A JavaScript \<open>undefined\<close> that the
  script can produce by itself (a missing command-line option, a missing segment of a
  split name, the optional chaining on the analyses response) is \<open>None\<close>.
\<close>

datatype 'a response = Rejected | Resolved 'a

record committer =
  user_login :: string

record repo_data =
  name :: string
  advanced_security_committers_breakdown :: "committer list"

record billing_stats =
  total_advanced_security_committers :: nat
  maximum_advanced_security_committers :: nat
  purchased_advanced_security_committers :: nat

record config_settings =
  secret_scanning :: string
  code_scanning_default_setup :: string

text \<open>\<open>config.data\<close> of the code-security-configuration request.\<close>

record config_data =
  status :: string
  configuration :: config_settings

text \<open>
  The response of \<open>octokit.repos.get\<close>: \<open>repoSettings.status\<close> is the HTTP status,
  \<open>secret_scanning_status\<close> is \<open>repoSettings.data.security_and_analysis.secret_scanning.status\<close>.
\<close>

record repo_settings =
  http_status :: nat
  secret_scanning_status :: string

record analysis =
  analysis_id :: nat

text \<open>
  The client object. \<open>listRecentAnalyses\<close> resolves with \<open>analyses?.data\<close>: \<open>None\<close> when the
  optional chain yields \<open>undefined\<close>. Owner and repository name are passed as the script
  computes them, so a name without a slash passes \<open>None\<close> (\<open>undefined\<close>) as repository.
\<close>

record api =
  billing_summary :: "string \<Rightarrow> billing_stats response"
  billing_repositories :: "string \<Rightarrow> repo_data list response"
  code_security_configuration :: "string option \<Rightarrow> string option \<Rightarrow> config_data response"
  repos_get :: "string option \<Rightarrow> string option \<Rightarrow> repo_settings response"
  listRecentAnalyses :: "string option \<Rightarrow> string option \<Rightarrow> analysis list option response"

text \<open>The parsed command line, as \<open>minimist\<close> hands it over.\<close>

record argv =
  enterprise :: "string option"
  org :: "string option"
  help_flag :: bool
  verbose :: bool

text \<open>
  What \<open>main\<close> mutates: the two sets (a JavaScript \<open>Set\<close> keeps insertion order and
  holds each value once, so it is a list without repetition), the counter, and the lines
  written by \<open>console.log\<close>.
\<close>

record state =
  secretProtectionCommitters :: "string list"
  codeScanningCommitters :: "string list"
  successfullyProcessed :: nat
  console :: "string list"

datatype ending = Completed | Exited nat | Unhandled

text \<open>
  How a block of the loop body ends: it falls through with a value, it executes
  \<open>continue\<close>, or a rejection leaves it uncaught.
\<close>

datatype 'a step = Next 'a | Continue | Throw

section \<open>JavaScript primitives used by the script\<close>

text \<open>Truthiness of an optional string: \<open>undefined\<close> and the empty string are falsy.\<close>

definition truthy :: "string option \<Rightarrow> bool" where
  "truthy v = (case v of None \<Rightarrow> False | Some s \<Rightarrow> s \<noteq> [])"

text \<open>An optional string inside a template literal.\<close>

definition template :: "string option \<Rightarrow> string" where
  "template v = (case v of None \<Rightarrow> ''undefined'' | Some s \<Rightarrow> s)"

text \<open>\<open>String.prototype.split\<close> with a one-character separator: never an empty array.\<close>

fun split_on :: "char \<Rightarrow> string \<Rightarrow> string list" where
  "split_on sep [] = [[]]"
| "split_on sep (c # cs) =
     (if c = sep then [] # split_on sep cs
      else (case split_on sep cs of [] \<Rightarrow> [[c]] | p # ps \<Rightarrow> (c # p) # ps))"

text \<open>Array indexing: out of range is \<open>undefined\<close>.\<close>

definition at :: "'a list \<Rightarrow> nat \<Rightarrow> 'a option" where
  "at xs i = (if i < length xs then Some (xs ! i) else None)"

text \<open>\<open>Set.prototype.add\<close>.\<close>

definition set_add :: "'a \<Rightarrow> 'a list \<Rightarrow> 'a list" where
  "set_add x s = (if x \<in> set s then s else s @ [x])"

text \<open>A natural number inside a template literal: its decimal digits.\<close>

function show_nat :: "nat \<Rightarrow> string" where
  "show_nat n =
     (if n < 10 then [char_of (48 + n)]
      else show_nat (n div 10) @ [char_of (48 + n mod 10)])"
  by pat_completeness auto
termination
  by (relation "measure (\<lambda>n. n)") auto

declare show_nat.simps [simp del]

definition console_log :: "string \<Rightarrow> state \<Rightarrow> state" where
  "console_log line st = st\<lparr>console := console st @ [line]\<rparr>"

section \<open>The repository loop\<close>

text \<open>
  \<open>committers.forEach((committer) => set.add(committer.user_login))\<close>
\<close>

definition add_committers :: "committer list \<Rightarrow> string list \<Rightarrow> string list" where
  "add_committers committers s = fold (\<lambda>committer. set_add (user_login committer)) committers s"

text \<open>
  Lines 89 to 91: the billed repositories, restricted to the names that start with
  \<open>`${argv.org}/`\<close> when an organisation is given.
\<close>

definition filteredRepos :: "argv \<Rightarrow> repo_data list \<Rightarrow> repo_data list" where
  "filteredRepos argv repos =
     (if truthy (org argv)
      then filter (\<lambda>repo. prefix (template (org argv) @ ''/'') (name repo)) repos
      else repos)"

text \<open>
  Lines 120 to 149, the \<open>try\<close> block on the two flags: \<open>None\<close> is the \<open>catch\<close> branch.
  The counter and the log line of that block are in \<open>loop_body\<close>.
\<close>

definition try_configuration ::
  "api \<Rightarrow> string option \<Rightarrow> string option \<Rightarrow> bool \<times> bool \<Rightarrow> (bool \<times> bool) option" where
  "try_configuration api owner repo flags =
     (case code_security_configuration api owner repo of
        Rejected \<Rightarrow> None
      | Resolved config \<Rightarrow>
          (let (secretProtectionEnabled, codeScanningEnabled) = flags in
           if status config = ''attached'' then
             Some (if secret_scanning (configuration config) = ''enabled''
                   then True else secretProtectionEnabled,
                   if code_scanning_default_setup (configuration config) = ''enabled''
                   then True else codeScanningEnabled)
           else Some (secretProtectionEnabled, codeScanningEnabled)))"

text \<open>
  Lines 151 to 167: the repository's own settings, asked only while secret protection is
  not yet known to be on. The request is outside every \<open>try\<close>, so a rejection is
  uncaught; the REST client rejects a request that is answered with an error status. The log line of the \<open>continue\<close> branch is in \<open>loop_body\<close>.
\<close>

definition check_repo_settings :: "api \<Rightarrow> string \<Rightarrow> bool \<Rightarrow> bool step" where
  "check_repo_settings api nm secretProtectionEnabled =
     (if \<not> secretProtectionEnabled then
        (case repos_get api (at (split_on CHR ''/'' nm) 0) (at (split_on CHR ''/'' nm) 1) of
           Rejected \<Rightarrow> Throw
         | Resolved repoSettings \<Rightarrow>
             if http_status repoSettings \<noteq> 200 then Continue
             else if secret_scanning_status repoSettings = ''enabled'' then Next True
             else Next secretProtectionEnabled)
      else Next secretProtectionEnabled)"

text \<open>
  Lines 175 to 189: the recent analyses, asked only while code scanning is not yet known
  to be on; \<open>None\<close> is the \<open>catch\<close> branch, which executes \<open>continue\<close>.
\<close>

definition probe_analyses ::
  "api \<Rightarrow> string option \<Rightarrow> string option \<Rightarrow> bool \<Rightarrow> bool option" where
  "probe_analyses api owner repo codeScanningEnabled =
     (if \<not> codeScanningEnabled then
        (case listRecentAnalyses api owner repo of
           Rejected \<Rightarrow> None
         | Resolved analyses \<Rightarrow>
             (case analyses of
                None \<Rightarrow> Some codeScanningEnabled
              | Some d \<Rightarrow> if length d > 0 then Some True else Some codeScanningEnabled))
      else Some codeScanningEnabled)"

text \<open>
  Lines 100 to 195, one iteration. \<open>i\<close> is the position of \<open>repo_data\<close> in
  \<open>filteredRepos\<close>: the array holds distinct objects, so \<open>indexOf\<close> finds that position.
  \<open>Inr\<close> is the state when the iteration ends (at its last statement or at a \<open>continue\<close>),
  \<open>Inl\<close> the state when an uncaught rejection ends the run.
\<close>

definition loop_body :: "api \<Rightarrow> argv \<Rightarrow> nat \<Rightarrow> repo_data \<Rightarrow> state \<Rightarrow> state + state" where
  "loop_body api argv i repo_data st0 =
     (let st1 = (if verbose argv
                 then console_log (''Repo '' @ show_nat (i + 1) @ '': '' @ name repo_data) st0
                 else st0);
          nm = name repo_data;
          committers = advanced_security_committers_breakdown repo_data;
          owner = at (split_on CHR ''/'' nm) 0;
          repo = at (split_on CHR ''/'' nm) 1
      in
      if truthy (org argv) \<and> owner \<noteq> org argv then
        (if verbose argv then Inr st1 else Inr st1)
      else
        (case try_configuration api owner repo (False, False) of
           None \<Rightarrow>
             Inr (if verbose argv
                  then console_log (''Error fetching code security configuration for '' @ nm) st1
                  else st1)
         | Some (secretProtectionEnabled, codeScanningEnabled) \<Rightarrow>
             (let st2 = st1\<lparr>successfullyProcessed := successfullyProcessed st1 + 1\<rparr> in
              case check_repo_settings api nm secretProtectionEnabled of
                Throw \<Rightarrow> Inl st2
              | Continue \<Rightarrow> Inr (console_log (''Error fetching repo settings for '' @ nm) st2)
              | Next secretProtectionEnabled' \<Rightarrow>
                  (let st3 = (if secretProtectionEnabled'
                              then st2\<lparr>secretProtectionCommitters :=
                                     add_committers committers (secretProtectionCommitters st2)\<rparr>
                              else st2)
                   in
                   case probe_analyses api owner repo codeScanningEnabled of
                     None \<Rightarrow> Inr st3
                   | Some codeScanningEnabled' \<Rightarrow>
                       Inr (if codeScanningEnabled'
                            then st3\<lparr>codeScanningCommitters :=
                                   add_committers committers (codeScanningCommitters st3)\<rparr>
                            else st3)))))"

text \<open>
  The same iteration with the owner test as the specification reads it: one unconditional
  skip, whatever the verbose flag.
\<close>

definition loop_body_single_skip ::
  "api \<Rightarrow> argv \<Rightarrow> nat \<Rightarrow> repo_data \<Rightarrow> state \<Rightarrow> state + state" where
  "loop_body_single_skip api argv i repo_data st0 =
     (let st1 = (if verbose argv
                 then console_log (''Repo '' @ show_nat (i + 1) @ '': '' @ name repo_data) st0
                 else st0);
          nm = name repo_data;
          committers = advanced_security_committers_breakdown repo_data;
          owner = at (split_on CHR ''/'' nm) 0;
          repo = at (split_on CHR ''/'' nm) 1
      in
      if truthy (org argv) \<and> owner \<noteq> org argv then Inr st1
      else
        (case try_configuration api owner repo (False, False) of
           None \<Rightarrow>
             Inr (if verbose argv
                  then console_log (''Error fetching code security configuration for '' @ nm) st1
                  else st1)
         | Some (secretProtectionEnabled, codeScanningEnabled) \<Rightarrow>
             (let st2 = st1\<lparr>successfullyProcessed := successfullyProcessed st1 + 1\<rparr> in
              case check_repo_settings api nm secretProtectionEnabled of
                Throw \<Rightarrow> Inl st2
              | Continue \<Rightarrow> Inr (console_log (''Error fetching repo settings for '' @ nm) st2)
              | Next secretProtectionEnabled' \<Rightarrow>
                  (let st3 = (if secretProtectionEnabled'
                              then st2\<lparr>secretProtectionCommitters :=
                                     add_committers committers (secretProtectionCommitters st2)\<rparr>
                              else st2)
                   in
                   case probe_analyses api owner repo codeScanningEnabled of
                     None \<Rightarrow> Inr st3
                   | Some codeScanningEnabled' \<Rightarrow>
                       Inr (if codeScanningEnabled'
                            then st3\<lparr>codeScanningCommitters :=
                                   add_committers committers (codeScanningCommitters st3)\<rparr>
                            else st3)))))"

text \<open>\<open>for (const x of xs)\<close> with the position counted along: an uncaught rejection ends it.\<close>

fun for_of :: "(nat \<Rightarrow> 'a \<Rightarrow> state \<Rightarrow> state + state) \<Rightarrow> nat \<Rightarrow> 'a list \<Rightarrow> state \<Rightarrow> state + state" where
  "for_of body i [] st = Inr st"
| "for_of body i (x # xs) st =
     (case body i x st of Inl st' \<Rightarrow> Inl st' | Inr st' \<Rightarrow> for_of body (Suc i) xs st')"

section \<open>The report and the whole run\<close>

text \<open>
  Lines 198 to 219. \<open>Array.from\<close> lists a set in insertion order; \<open>sort()\<close> without a
  comparison function orders strings by their code units, which is the lexicographic
  order of character lists.
\<close>

definition report :: "argv \<Rightarrow> nat \<Rightarrow> state \<Rightarrow> state" where
  "report argv n st0 =
     (let secretProtectionArray = secretProtectionCommitters st0;
          codeScanningArray = codeScanningCommitters st0;
          st1 = console_log [] st0;
          st2 = console_log (''Successfully processed repositories: ''
                  @ show_nat (successfullyProcessed st0) @ '' out of '' @ show_nat n) st1;
          st3 = console_log (''Secret protection: '' @ show_nat (length secretProtectionArray)) st2;
          st4 = console_log (''Code security: '' @ show_nat (length codeScanningArray)) st3
      in
      if verbose argv then
        (let st5 = console_log ''Secret protection committers:'' st4;
             st6 = fold (\<lambda>committer. console_log ('' - '' @ committer))
                     (sort secretProtectionArray) st5;
             st7 = console_log ''Code scanning committers:'' st6
         in fold (\<lambda>committer. console_log ('' - '' @ committer)) (sort codeScanningArray) st7)
      else st4)"

definition initial :: state where
  "initial = \<lparr>secretProtectionCommitters = [], codeScanningCommitters = [],
              successfullyProcessed = 0, console = []\<rparr>"

text \<open>
  \<open>main\<close>, with the loop body as a parameter. The throttling callbacks and the silenced
  client log belong to the client and are not modelled.
\<close>

definition main_with ::
  "(api \<Rightarrow> argv \<Rightarrow> nat \<Rightarrow> repo_data \<Rightarrow> state \<Rightarrow> state + state) \<Rightarrow> api \<Rightarrow> argv \<Rightarrow> ending \<times> state" where
  "main_with body api argv =
     (if help_flag argv \<or> \<not> truthy (enterprise argv) then
        (Exited 1,
         console_log ''Example: node ghas-licensing-by-tool.js --enterprise my-enterprise --org my-org''
           (console_log ''Usage: node ghas-licensing-by-tool.js --enterprise <enterprise> [--org <organization>]''
              initial))
      else
        (case billing_summary api (template (enterprise argv)) of
           Rejected \<Rightarrow> (Unhandled, initial)
         | Resolved stats \<Rightarrow>
             (let st1 = console_log (''Total active committers: ''
                          @ show_nat (total_advanced_security_committers stats)) initial;
                  st2 = console_log (''Max active committers: ''
                          @ show_nat (maximum_advanced_security_committers stats)) st1;
                  st3 = console_log (''Purchased committers: ''
                          @ show_nat (purchased_advanced_security_committers stats)) st2;
                  st4 = console_log [] st3
              in
              case billing_repositories api (template (enterprise argv)) of
                Rejected \<Rightarrow> (Unhandled, st4)
              | Resolved repos \<Rightarrow>
                  (let st5 = console_log (''Number of repos: ''
                               @ show_nat (length (filteredRepos argv repos))) st4;
                       st6 = console_log [] st5
                   in
                   case for_of (body api argv) 0 (filteredRepos argv repos) st6 of
                     Inl st \<Rightarrow> (Unhandled, st)
                   | Inr st \<Rightarrow> (Completed, report argv (length (filteredRepos argv repos)) st)))))"

definition main :: "api \<Rightarrow> argv \<Rightarrow> ending \<times> state" where
  "main = main_with loop_body"

definition main_single_skip :: "api \<Rightarrow> argv \<Rightarrow> ending \<times> state" where
  "main_single_skip = main_with loop_body_single_skip"

section \<open>What an iteration decides\<close>

text \<open>
  The owner and the repository name of \<open>const [owner, repo] = name.split("/")\<close>.
\<close>

definition owner_of :: "repo_data \<Rightarrow> string option" where
  "owner_of r = at (split_on CHR ''/'' (name r)) 0"

definition repo_of :: "repo_data \<Rightarrow> string option" where
  "repo_of r = at (split_on CHR ''/'' (name r)) 1"

text \<open>The iteration gets past the owner test of line 109 and issues the configuration request.\<close>

definition reaches_configuration :: "argv \<Rightarrow> repo_data \<Rightarrow> bool" where
  "reaches_configuration argv r = (\<not> (truthy (org argv) \<and> owner_of r \<noteq> org argv))"

text \<open>The configuration request of the iteration is issued and resolves.\<close>

definition configuration_fetched :: "api \<Rightarrow> argv \<Rightarrow> repo_data \<Rightarrow> bool" where
  "configuration_fetched api argv r =
     (reaches_configuration argv r \<and>
      (case code_security_configuration api (owner_of r) (repo_of r) of
         Rejected \<Rightarrow> False
       | Resolved config \<Rightarrow> True))"

text \<open>The iteration arrives at line 169 with \<open>secretProtectionEnabled\<close> true.\<close>

definition secret_scanning_determined :: "api \<Rightarrow> argv \<Rightarrow> repo_data \<Rightarrow> bool" where
  "secret_scanning_determined api argv r =
     (reaches_configuration argv r \<and>
      (case try_configuration api (owner_of r) (repo_of r) (False, False) of
         None \<Rightarrow> False
       | Some (secretProtectionEnabled, codeScanningEnabled) \<Rightarrow>
           check_repo_settings api (name r) secretProtectionEnabled = Next True))"

text \<open>The iteration arrives at line 191 with \<open>codeScanningEnabled\<close> true.\<close>

definition code_scanning_determined :: "api \<Rightarrow> argv \<Rightarrow> repo_data \<Rightarrow> bool" where
  "code_scanning_determined api argv r =
     (reaches_configuration argv r \<and>
      (case try_configuration api (owner_of r) (repo_of r) (False, False) of
         None \<Rightarrow> False
       | Some (secretProtectionEnabled, codeScanningEnabled) \<Rightarrow>
           (case check_repo_settings api (name r) secretProtectionEnabled of
              Next secretProtectionEnabled' \<Rightarrow>
                probe_analyses api (owner_of r) (repo_of r) codeScanningEnabled = Some True
            | Continue \<Rightarrow> False
            | Throw \<Rightarrow> False)))"

text \<open>
  Line 134 or line 165 is executed: \<open>secretProtectionEnabled\<close> becomes true in the
  iteration.
\<close>

definition secret_protection_flag_set :: "api \<Rightarrow> argv \<Rightarrow> repo_data \<Rightarrow> bool" where
  "secret_protection_flag_set api argv r =
     (reaches_configuration argv r \<and>
      (case try_configuration api (owner_of r) (repo_of r) (False, False) of
         None \<Rightarrow> False
       | Some (secretProtectionEnabled, codeScanningEnabled) \<Rightarrow>
           secretProtectionEnabled \<or>
           check_repo_settings api (name r) secretProtectionEnabled = Next True))"

text \<open>
  Line 137 or line 184 is executed: \<open>codeScanningEnabled\<close> becomes true in the iteration.
\<close>

definition code_scanning_flag_set :: "api \<Rightarrow> argv \<Rightarrow> repo_data \<Rightarrow> bool" where
  "code_scanning_flag_set api argv r =
     (reaches_configuration argv r \<and>
      (case try_configuration api (owner_of r) (repo_of r) (False, False) of
         None \<Rightarrow> False
       | Some (secretProtectionEnabled, codeScanningEnabled) \<Rightarrow>
           codeScanningEnabled \<or>
           (case check_repo_settings api (name r) secretProtectionEnabled of
              Next secretProtectionEnabled' \<Rightarrow>
                probe_analyses api (owner_of r) (repo_of r) codeScanningEnabled = Some True
            | Continue \<Rightarrow> False
            | Throw \<Rightarrow> False)))"

text \<open>The \<open>continue\<close> of line 160 is executed in the iteration.\<close>

definition skipped_at_settings :: "api \<Rightarrow> argv \<Rightarrow> repo_data \<Rightarrow> bool" where
  "skipped_at_settings api argv r =
     (reaches_configuration argv r \<and>
      (case try_configuration api (owner_of r) (repo_of r) (False, False) of
         None \<Rightarrow> False
       | Some (secretProtectionEnabled, codeScanningEnabled) \<Rightarrow>
           check_repo_settings api (name r) secretProtectionEnabled = Continue))"

definition logins :: "repo_data \<Rightarrow> string set" where
  "logins r = user_login ` set (advanced_security_committers_breakdown r)"

text \<open>
  The client whose billing listing leaves out every repository that the organisation
  filter rejects.
\<close>

definition without_other_owners :: "argv \<Rightarrow> api \<Rightarrow> api" where
  "without_other_owners argv api =
     api\<lparr>billing_repositories :=
           (\<lambda>e. case billing_repositories api e of
                   Rejected \<Rightarrow> Rejected
                 | Resolved repos \<Rightarrow>
                     Resolved (filter (\<lambda>repo. prefix (template (org argv) @ ''/'') (name repo)) repos))\<rparr>"

section \<open>Concrete runs\<close>

definition repo1 :: repo_data where
  "repo1 = \<lparr>name = ''acme/repo1'',
            advanced_security_committers_breakdown =
              [\<lparr>user_login = ''bob''\<rparr>, \<lparr>user_login = ''alice''\<rparr>]\<rparr>"

definition repo2 :: repo_data where
  "repo2 = \<lparr>name = ''acme/repo2'',
            advanced_security_committers_breakdown =
              [\<lparr>user_login = ''carol''\<rparr>, \<lparr>user_login = ''bob''\<rparr>]\<rparr>"

definition repo3 :: repo_data where
  "repo3 = \<lparr>name = ''beta/repo3'',
            advanced_security_committers_breakdown = [\<lparr>user_login = ''dave''\<rparr>]\<rparr>"

definition repo4 :: repo_data where
  "repo4 = \<lparr>name = ''acme/repo4'',
            advanced_security_committers_breakdown =
              [\<lparr>user_login = ''bob''\<rparr>, \<lparr>user_login = ''erin''\<rparr>]\<rparr>"

text \<open>
  The scenario of the specification, with a repository of another organisation and a
  fourth repository whose configuration request rejects: \<open>repo1\<close> has secret scanning on by
  its attached configuration, \<open>repo2\<close> has code scanning on by its analyses.
\<close>

definition scenario_api :: api where
  "scenario_api =
     \<lparr>billing_summary = (\<lambda>e. Resolved \<lparr>total_advanced_security_committers = 50,
                                        maximum_advanced_security_committers = 60,
                                        purchased_advanced_security_committers = 100\<rparr>),
      billing_repositories = (\<lambda>e. Resolved [repo1, repo3, repo2, repo4]),
      code_security_configuration =
        (\<lambda>owner repo.
           if repo = Some ''repo1''
           then Resolved \<lparr>status = ''attached'',
                          configuration = \<lparr>secret_scanning = ''enabled'',
                                           code_scanning_default_setup = ''disabled''\<rparr>\<rparr>
           else if repo = Some ''repo4'' then Rejected
           else Resolved \<lparr>status = ''detached'',
                          configuration = \<lparr>secret_scanning = ''disabled'',
                                           code_scanning_default_setup = ''disabled''\<rparr>\<rparr>),
      repos_get = (\<lambda>owner repo. Resolved \<lparr>http_status = 200, secret_scanning_status = ''disabled''\<rparr>),
      listRecentAnalyses =
        (\<lambda>owner repo. if repo = Some ''repo2''
                       then Resolved (Some [\<lparr>analysis_id = 1\<rparr>])
                       else Resolved (Some []))\<rparr>"

definition scenario_argv :: argv where
  "scenario_argv = \<lparr>enterprise = Some ''acme-corp'', org = Some ''acme'',
                    help_flag = False, verbose = True\<rparr>"

definition quiet_argv :: argv where
  "quiet_argv = \<lparr>enterprise = Some ''acme-corp'', org = None,
                 help_flag = False, verbose = False\<rparr>"

text \<open>
  A client whose configuration request always rejects, while the repository settings
  report secret scanning enabled and an analysis exists.
\<close>

definition api_configuration_rejected :: api where
  "api_configuration_rejected =
     \<lparr>billing_summary = (\<lambda>e. Resolved \<lparr>total_advanced_security_committers = 2,
                                        maximum_advanced_security_committers = 2,
                                        purchased_advanced_security_committers = 5\<rparr>),
      billing_repositories = (\<lambda>e. Resolved [repo1]),
      code_security_configuration = (\<lambda>owner repo. Rejected),
      repos_get = (\<lambda>owner repo. Resolved \<lparr>http_status = 200, secret_scanning_status = ''enabled''\<rparr>),
      listRecentAnalyses = (\<lambda>owner repo. Resolved (Some [\<lparr>analysis_id = 7\<rparr>]))\<rparr>"

text \<open>
  A client whose configuration request finds nothing attached, whose settings request
  resolves with a status other than 200, and which has an analysis for every repository.
\<close>

definition api_settings_not_ok :: api where
  "api_settings_not_ok =
     \<lparr>billing_summary = (\<lambda>e. Resolved \<lparr>total_advanced_security_committers = 2,
                                        maximum_advanced_security_committers = 2,
                                        purchased_advanced_security_committers = 5\<rparr>),
      billing_repositories = (\<lambda>e. Resolved [repo1]),
      code_security_configuration =
        (\<lambda>owner repo. Resolved \<lparr>status = ''detached'',
                                 configuration = \<lparr>secret_scanning = ''disabled'',
                                                  code_scanning_default_setup = ''disabled''\<rparr>\<rparr>),
      repos_get = (\<lambda>owner repo. Resolved \<lparr>http_status = 202, secret_scanning_status = ''enabled''\<rparr>),
      listRecentAnalyses = (\<lambda>owner repo. Resolved (Some [\<lparr>analysis_id = 7\<rparr>]))\<rparr>"

text \<open>
  A client whose settings request fails with an error status: the REST client rejects the
  request then. Nothing is attached by way of configuration, and an analysis exists.
\<close>

definition api_settings_rejected :: api where
  "api_settings_rejected =
     \<lparr>billing_summary = (\<lambda>e. Resolved \<lparr>total_advanced_security_committers = 2,
                                        maximum_advanced_security_committers = 2,
                                        purchased_advanced_security_committers = 5\<rparr>),
      billing_repositories = (\<lambda>e. Resolved [repo1, repo2]),
      code_security_configuration =
        (\<lambda>owner repo. Resolved \<lparr>status = ''detached'',
                                 configuration = \<lparr>secret_scanning = ''disabled'',
                                                  code_scanning_default_setup = ''disabled''\<rparr>\<rparr>),
      repos_get = (\<lambda>owner repo. Rejected),
      listRecentAnalyses = (\<lambda>owner repo. Resolved (Some [\<lparr>analysis_id = 7\<rparr>]))\<rparr>"

text \<open>
  A client whose attached configuration enables code scanning but not secret scanning,
  and whose settings request resolves with a status other than 200.
\<close>

definition api_code_scanning_configured :: api where
  "api_code_scanning_configured =
     \<lparr>billing_summary = (\<lambda>e. Resolved \<lparr>total_advanced_security_committers = 2,
                                        maximum_advanced_security_committers = 2,
                                        purchased_advanced_security_committers = 5\<rparr>),
      billing_repositories = (\<lambda>e. Resolved [repo1]),
      code_security_configuration =
        (\<lambda>owner repo. Resolved \<lparr>status = ''attached'',
                                 configuration = \<lparr>secret_scanning = ''disabled'',
                                                  code_scanning_default_setup = ''enabled''\<rparr>\<rparr>),
      repos_get = (\<lambda>owner repo. Resolved \<lparr>http_status = 202, secret_scanning_status = ''enabled''\<rparr>),
      listRecentAnalyses = (\<lambda>owner repo. Resolved (Some []))\<rparr>"

text \<open>
  A client for which three repositories that share the committer \<open>bob\<close> have both tools
  enabled: \<open>repo1\<close> by its attached configuration, the others by their settings and their
  analyses.
\<close>

definition api_shared_committer :: api where
  "api_shared_committer =
     \<lparr>billing_summary = (\<lambda>e. Resolved \<lparr>total_advanced_security_committers = 4,
                                        maximum_advanced_security_committers = 4,
                                        purchased_advanced_security_committers = 5\<rparr>),
      billing_repositories = (\<lambda>e. Resolved [repo1, repo2, repo4]),
      code_security_configuration =
        (\<lambda>owner repo.
           if repo = Some ''repo1''
           then Resolved \<lparr>status = ''attached'',
                          configuration = \<lparr>secret_scanning = ''enabled'',
                                           code_scanning_default_setup = ''enabled''\<rparr>\<rparr>
           else Resolved \<lparr>status = ''detached'',
                          configuration = \<lparr>secret_scanning = ''disabled'',
                                           code_scanning_default_setup = ''disabled''\<rparr>\<rparr>),
      repos_get = (\<lambda>owner repo. Resolved \<lparr>http_status = 200, secret_scanning_status = ''enabled''\<rparr>),
      listRecentAnalyses = (\<lambda>owner repo. Resolved (Some [\<lparr>analysis_id = 3\<rparr>]))\<rparr>"

section \<open>Auxiliary facts\<close>

subsection \<open>Sets as lists\<close>

lemma set_set_add: "set (set_add x s) = insert x (set s)"
  by (auto simp: set_add_def)

lemma distinct_set_add: "distinct s \<Longrightarrow> distinct (set_add x s)"
  by (simp add: set_add_def)

lemma set_add_committers: "set (add_committers cs s) = set s \<union> user_login ` set cs"
  unfolding add_committers_def by (induction cs arbitrary: s) (auto simp: set_set_add)

lemma distinct_add_committers: "distinct s \<Longrightarrow> distinct (add_committers cs s)"
  unfolding add_committers_def by (induction cs arbitrary: s) (auto simp: distinct_set_add)

subsection \<open>The console only grows\<close>

lemma fold_console_log:
  "fold (\<lambda>c. console_log (f c)) xs st = st\<lparr>console := console st @ map f xs\<rparr>"
  by (induction xs arbitrary: st) (simp_all add: console_log_def)

lemma report_fields:
  "secretProtectionCommitters (report argv n st) = secretProtectionCommitters st"
  "codeScanningCommitters (report argv n st) = codeScanningCommitters st"
  "successfullyProcessed (report argv n st) = successfullyProcessed st"
  by (simp_all add: report_def Let_def fold_console_log console_log_def)

lemma report_console:
  "console (report argv n st) =
     console st @
     [[], ''Successfully processed repositories: '' @ show_nat (successfullyProcessed st)
            @ '' out of '' @ show_nat n,
      ''Secret protection: '' @ show_nat (length (secretProtectionCommitters st)),
      ''Code security: '' @ show_nat (length (codeScanningCommitters st))] @
     (if verbose argv then
        ''Secret protection committers:'' # map ((@) '' - '') (sort (secretProtectionCommitters st)) @
        ''Code scanning committers:'' # map ((@) '' - '') (sort (codeScanningCommitters st))
      else [])"
  by (simp add: report_def Let_def fold_console_log console_log_def)

subsection \<open>One iteration\<close>

lemma try_configuration_None:
  "try_configuration api owner repo flags = None \<longleftrightarrow>
     code_security_configuration api owner repo = Rejected"
  by (cases flags) (simp add: try_configuration_def split: response.splits)

lemma loop_body_Inr:
  assumes "loop_body api argv i r st = Inr st'"
  shows "secretProtectionCommitters st' =
           (if secret_scanning_determined api argv r
            then add_committers (advanced_security_committers_breakdown r) (secretProtectionCommitters st)
            else secretProtectionCommitters st)"
    and "codeScanningCommitters st' =
           (if code_scanning_determined api argv r
            then add_committers (advanced_security_committers_breakdown r) (codeScanningCommitters st)
            else codeScanningCommitters st)"
    and "successfullyProcessed st' =
           successfullyProcessed st + (if configuration_fetched api argv r then 1 else 0)"
    and "\<exists>ls. console st' = console st @ ls"
proof -
  let ?o = "owner_of r" and ?p = "repo_of r"
  note defs = loop_body_def Let_def secret_scanning_determined_def code_scanning_determined_def
    configuration_fetched_def reaches_configuration_def console_log_def
    owner_of_def repo_of_def
  have "(secretProtectionCommitters st' =
           (if secret_scanning_determined api argv r
            then add_committers (advanced_security_committers_breakdown r) (secretProtectionCommitters st)
            else secretProtectionCommitters st)) \<and>
        (codeScanningCommitters st' =
           (if code_scanning_determined api argv r
            then add_committers (advanced_security_committers_breakdown r) (codeScanningCommitters st)
            else codeScanningCommitters st)) \<and>
        (successfullyProcessed st' =
           successfullyProcessed st + (if configuration_fetched api argv r then 1 else 0)) \<and>
        (\<exists>ls. console st' = console st @ ls)"
  proof (cases "truthy (org argv) \<and> ?o \<noteq> org argv")
    case True
    with assms show ?thesis
      by (auto simp: defs)
  next
    case reach: False
    show ?thesis
    proof (cases "try_configuration api ?o ?p (False, False)")
      case None
      then have "code_security_configuration api ?o ?p = Rejected"
        by (simp add: try_configuration_None)
      with assms reach None show ?thesis
        by (auto simp: defs)
    next
      case (Some flags)
      then obtain sp cs where t: "try_configuration api ?o ?p (False, False) = Some (sp, cs)"
        by (cases flags) simp
      from t obtain config where Resolved: "code_security_configuration api ?o ?p = Resolved config"
        by (cases "code_security_configuration api ?o ?p") (simp_all add: try_configuration_def)
      show ?thesis
      proof (cases "check_repo_settings api (name r) sp")
        case Throw
        with assms reach t Resolved show ?thesis by (auto simp: defs)
      next
        case Continue
        with assms reach t Resolved show ?thesis by (auto simp: defs)
      next
        case (Next sp')
        show ?thesis
        proof (cases "probe_analyses api ?o ?p cs")
          case None
          with assms reach t Resolved Next show ?thesis
            by (cases sp') (auto simp: defs)
        next
          case (Some cs')
          with assms reach t Resolved Next show ?thesis
            by (cases sp'; cases cs') (auto simp: defs)
        qed
      qed
    qed
  qed
  then show "secretProtectionCommitters st' =
           (if secret_scanning_determined api argv r
            then add_committers (advanced_security_committers_breakdown r) (secretProtectionCommitters st)
            else secretProtectionCommitters st)"
    and "codeScanningCommitters st' =
           (if code_scanning_determined api argv r
            then add_committers (advanced_security_committers_breakdown r) (codeScanningCommitters st)
            else codeScanningCommitters st)"
    and "successfullyProcessed st' =
           successfullyProcessed st + (if configuration_fetched api argv r then 1 else 0)"
    and "\<exists>ls. console st' = console st @ ls"
    by blast+
qed


lemma loop_body_Inl:
  assumes "loop_body api argv i r st = Inl st'"
  shows "successfullyProcessed st' =
           successfullyProcessed st + (if configuration_fetched api argv r then 1 else 0)"
proof -
  let ?o = "owner_of r" and ?p = "repo_of r"
  note defs = loop_body_def Let_def configuration_fetched_def reaches_configuration_def
    console_log_def owner_of_def repo_of_def
  show ?thesis
  proof (cases "try_configuration api ?o ?p (False, False)")
    case None
    then have "code_security_configuration api ?o ?p = Rejected"
      by (simp add: try_configuration_None)
    with None assms show ?thesis
      by (auto simp: defs split: if_splits)
  next
    case (Some flags)
    then obtain sp cs where t: "try_configuration api ?o ?p (False, False) = Some (sp, cs)"
      by (cases flags) simp
    from t obtain config where "code_security_configuration api ?o ?p = Resolved config"
      by (cases "code_security_configuration api ?o ?p") (simp_all add: try_configuration_def)
    with assms t show ?thesis
      by (auto simp: defs split: step.splits option.splits if_splits)
  qed
qed

subsection \<open>The loop\<close>

lemma for_of_loop_body:
  assumes "for_of (loop_body api argv) i rs st = Inr st'"
  shows "set (secretProtectionCommitters st') =
           set (secretProtectionCommitters st) \<union>
           (\<Union>r \<in> {r \<in> set rs. secret_scanning_determined api argv r}. logins r)"
    and "set (codeScanningCommitters st') =
           set (codeScanningCommitters st) \<union>
           (\<Union>r \<in> {r \<in> set rs. code_scanning_determined api argv r}. logins r)"
    and "distinct (secretProtectionCommitters st) \<Longrightarrow> distinct (secretProtectionCommitters st')"
    and "distinct (codeScanningCommitters st) \<Longrightarrow> distinct (codeScanningCommitters st')"
    and "successfullyProcessed st' =
           successfullyProcessed st + length (filter (configuration_fetched api argv) rs)"
    and "\<exists>ls. console st' = console st @ ls"
  using assms
proof (induction rs arbitrary: i st)
  case Nil
  { case 1 then show ?case by simp }
  { case 2 then show ?case by simp }
  { case 3 then show ?case by simp }
  { case 4 then show ?case by simp }
  { case 5 then show ?case by simp }
  { case 6 then show ?case by simp }
next
  case (Cons r rs)
  { case 1
    then obtain st1 where b: "loop_body api argv i r st = Inr st1"
      and l: "for_of (loop_body api argv) (Suc i) rs st1 = Inr st'"
      by (auto split: sum.splits)
    show ?case using Cons.IH(1)[OF l] loop_body_Inr(1)[OF b]
      by (auto simp: set_add_committers logins_def) }
  { case 2
    then obtain st1 where b: "loop_body api argv i r st = Inr st1"
      and l: "for_of (loop_body api argv) (Suc i) rs st1 = Inr st'"
      by (auto split: sum.splits)
    show ?case using Cons.IH(2)[OF l] loop_body_Inr(2)[OF b]
      by (auto simp: set_add_committers logins_def) }
  { case 3
    then obtain st1 where b: "loop_body api argv i r st = Inr st1"
      and l: "for_of (loop_body api argv) (Suc i) rs st1 = Inr st'"
      by (auto split: sum.splits)
    show ?case using Cons.IH(3)[OF _ l] loop_body_Inr(1)[OF b] 3(1)
      by (auto simp: distinct_add_committers) }
  { case 4
    then obtain st1 where b: "loop_body api argv i r st = Inr st1"
      and l: "for_of (loop_body api argv) (Suc i) rs st1 = Inr st'"
      by (auto split: sum.splits)
    show ?case using Cons.IH(4)[OF _ l] loop_body_Inr(2)[OF b] 4(1)
      by (auto simp: distinct_add_committers) }
  { case 5
    then obtain st1 where b: "loop_body api argv i r st = Inr st1"
      and l: "for_of (loop_body api argv) (Suc i) rs st1 = Inr st'"
      by (auto split: sum.splits)
    show ?case using Cons.IH(5)[OF l] loop_body_Inr(3)[OF b]
      by auto }
  { case 6
    then obtain st1 where b: "loop_body api argv i r st = Inr st1"
      and l: "for_of (loop_body api argv) (Suc i) rs st1 = Inr st'"
      by (auto split: sum.splits)
    show ?case using Cons.IH(6)[OF l] loop_body_Inr(4)[OF b]
      by auto }
qed

subsection \<open>The whole run\<close>

lemma main_Completed:
  assumes run: "main api argv = (Completed, st)"
    and lst: "billing_repositories api (template (enterprise argv)) = Resolved repos"
  obtains stats st0 st1 where
    "billing_summary api (template (enterprise argv)) = Resolved stats"
    "secretProtectionCommitters st0 = []" "codeScanningCommitters st0 = []"
    "successfullyProcessed st0 = 0"
    "console st0 =
       [''Total active committers: '' @ show_nat (total_advanced_security_committers stats),
        ''Max active committers: '' @ show_nat (maximum_advanced_security_committers stats),
        ''Purchased committers: '' @ show_nat (purchased_advanced_security_committers stats),
        [],
        ''Number of repos: '' @ show_nat (length (filteredRepos argv repos)),
        []]"
    "for_of (loop_body api argv) 0 (filteredRepos argv repos) st0 = Inr st1"
    "st = report argv (length (filteredRepos argv repos)) st1"
proof -
  from run have ok: "\<not> (help_flag argv \<or> \<not> truthy (enterprise argv))"
    unfolding main_def main_with_def by (auto split: if_splits)
  from run ok obtain stats where
    stats: "billing_summary api (template (enterprise argv)) = Resolved stats"
    unfolding main_def main_with_def
    by (cases "billing_summary api (template (enterprise argv))") simp_all
  define st0 where "st0 =
    console_log [] (console_log (''Number of repos: '' @ show_nat (length (filteredRepos argv repos)))
     (console_log [] (console_log (''Purchased committers: ''
          @ show_nat (purchased_advanced_security_committers stats))
       (console_log (''Max active committers: ''
          @ show_nat (maximum_advanced_security_committers stats))
         (console_log (''Total active committers: ''
          @ show_nat (total_advanced_security_committers stats)) initial)))))"
  from run ok stats lst have
    r: "(case for_of (loop_body api argv) 0 (filteredRepos argv repos) st0 of
          Inl st \<Rightarrow> (Unhandled, st)
        | Inr st \<Rightarrow> (Completed, report argv (length (filteredRepos argv repos)) st))
        = (Completed, st)"
    unfolding main_def main_with_def Let_def st0_def by simp
  then obtain st1 where
    l: "for_of (loop_body api argv) 0 (filteredRepos argv repos) st0 = Inr st1"
    and s: "st = report argv (length (filteredRepos argv repos)) st1"
    by (cases "for_of (loop_body api argv) 0 (filteredRepos argv repos) st0") auto
  have "secretProtectionCommitters st0 = []" "codeScanningCommitters st0 = []"
    "successfullyProcessed st0 = 0"
    by (simp_all add: st0_def console_log_def initial_def)
  moreover have "console st0 =
       [''Total active committers: '' @ show_nat (total_advanced_security_committers stats),
        ''Max active committers: '' @ show_nat (maximum_advanced_security_committers stats),
        ''Purchased committers: '' @ show_nat (purchased_advanced_security_committers stats),
        [],
        ''Number of repos: '' @ show_nat (length (filteredRepos argv repos)),
        []]"
    by (simp add: st0_def console_log_def initial_def)
  ultimately show thesis using that stats l s by blast
qed

lemma main_Completed_listing:
  assumes "main api argv = (Completed, st)"
  shows "\<exists>repos. billing_repositories api (template (enterprise argv)) = Resolved repos"
proof (cases "billing_repositories api (template (enterprise argv))")
  case Rejected
  with assms show ?thesis
    unfolding main_def main_with_def Let_def
    by (simp split: if_splits response.splits)
next
  case (Resolved repos)
  then show ?thesis by simp
qed

subsection \<open>The organisation filter\<close>

lemma split_on_prefix:
  "sep \<notin> set p \<Longrightarrow> split_on sep (p @ sep # rest) = p # split_on sep rest"
  by (induction p) (auto split: list.splits)

lemma filteredRepos_reach:
  assumes "CHR ''/'' \<notin> set (template (org argv))"
    and "r \<in> set (filteredRepos argv repos)"
  shows "reaches_configuration argv r"
proof (cases "truthy (org argv)")
  case False
  then show ?thesis by (simp add: reaches_configuration_def)
next
  case True
  then obtain g where g: "org argv = Some g"
    by (cases "org argv") (simp_all add: truthy_def)
  with True assms(2) obtain rest where "name r = g @ CHR ''/'' # rest"
    by (auto simp: filteredRepos_def template_def prefix_def)
  moreover from assms(1) g have "CHR ''/'' \<notin> set g"
    by (simp add: template_def)
  ultimately have "owner_of r = Some g"
    by (simp add: owner_of_def at_def split_on_prefix)
  with g show ?thesis by (simp add: reaches_configuration_def)
qed

lemma count_list_distinct: "distinct xs \<Longrightarrow> x \<in> set xs \<Longrightarrow> count_list xs x = 1"
  by (induction xs) (auto simp: count_list_0_iff)

lemma checks_billing_repositories:
  "try_configuration (api\<lparr>billing_repositories := f\<rparr>) = try_configuration api"
  "check_repo_settings (api\<lparr>billing_repositories := f\<rparr>) = check_repo_settings api"
  "probe_analyses (api\<lparr>billing_repositories := f\<rparr>) = probe_analyses api"
  by (intro ext, simp add: try_configuration_def check_repo_settings_def probe_analyses_def)+

lemma loop_body_billing_repositories:
  "loop_body (api\<lparr>billing_repositories := f\<rparr>) argv i r st = loop_body api argv i r st"
  unfolding loop_body_def checks_billing_repositories by (rule refl)

lemma for_of_cong_body:
  "(\<And>i x st. body i x st = body' i x st) \<Longrightarrow> for_of body i xs st = for_of body' i xs st"
  by (induction xs arbitrary: i st) (simp_all split: sum.splits)

lemma filteredRepos_idem:
  "truthy (org argv) \<Longrightarrow>
   filteredRepos argv (filter (\<lambda>repo. prefix (template (org argv) @ ''/'') (name repo)) repos)
     = filteredRepos argv repos"
  by (simp add: filteredRepos_def)

lemma main_without_other_owners:
  assumes "truthy (org argv)"
  shows "main (without_other_owners argv api) argv = main api argv"
proof -
  let ?api = "without_other_owners argv api"
  have body: "for_of (loop_body ?api argv) i xs st = for_of (loop_body api argv) i xs st"
    for i xs st
    unfolding without_other_owners_def
    by (rule for_of_cong_body) (rule loop_body_billing_repositories)
  have summary: "billing_summary ?api e = billing_summary api e" for e
    by (simp add: without_other_owners_def)
  show ?thesis
  proof (cases "billing_repositories api (template (enterprise argv))")
    case Rejected
    then have B: "billing_repositories ?api (template (enterprise argv)) = Rejected"
      by (simp add: without_other_owners_def)
    show ?thesis
      unfolding main_def main_with_def summary Rejected B response.case by (rule refl)
  next
    case (Resolved repos)
    then have B: "billing_repositories ?api (template (enterprise argv)) =
        Resolved (filter (\<lambda>repo. prefix (template (org argv) @ ''/'') (name repo)) repos)"
      by (simp add: without_other_owners_def)
    show ?thesis
      unfolding main_def main_with_def summary Resolved B response.case body
        filteredRepos_idem [OF assms]
      by (rule refl)
  qed
qed

subsection \<open>The final sets and the report\<close>

lemma main_Completed_distinct:
  assumes run: "main api argv = (Completed, final)"
  shows "distinct (secretProtectionCommitters final)"
    and "distinct (codeScanningCommitters final)"
proof -
  from main_Completed_listing [OF run] obtain repos where
    lst: "billing_repositories api (template (enterprise argv)) = Resolved repos"
    by blast
  obtain stats :: billing_stats and st0 st1 where
    "billing_summary api (template (enterprise argv)) = Resolved stats"
    and st0: "secretProtectionCommitters st0 = []" "codeScanningCommitters st0 = []"
    and "successfullyProcessed st0 = 0"
    and "console st0 =
       [''Total active committers: '' @ show_nat (total_advanced_security_committers stats),
        ''Max active committers: '' @ show_nat (maximum_advanced_security_committers stats),
        ''Purchased committers: '' @ show_nat (purchased_advanced_security_committers stats),
        [],
        ''Number of repos: '' @ show_nat (length (filteredRepos argv repos)),
        []]"
    and l: "for_of (loop_body api argv) 0 (filteredRepos argv repos) st0 = Inr st1"
    and f: "final = report argv (length (filteredRepos argv repos)) st1"
    by (rule main_Completed [OF run lst])
  from for_of_loop_body(3)[OF l] st0 f
  show "distinct (secretProtectionCommitters final)"
    by (simp add: report_fields)
  from for_of_loop_body(4)[OF l] st0 f
  show "distinct (codeScanningCommitters final)"
    by (simp add: report_fields)
qed

lemma main_Completed_console:
  assumes run: "main api argv = (Completed, final)"
  shows "\<exists>pre. console final =
     pre @
     [''Secret protection: '' @ show_nat (length (secretProtectionCommitters final)),
      ''Code security: '' @ show_nat (length (codeScanningCommitters final))] @
     (if verbose argv then
        ''Secret protection committers:'' # map ((@) '' - '') (sort (secretProtectionCommitters final)) @
        ''Code scanning committers:'' # map ((@) '' - '') (sort (codeScanningCommitters final))
      else [])"
proof -
  from main_Completed_listing [OF run] obtain repos where
    lst: "billing_repositories api (template (enterprise argv)) = Resolved repos"
    by blast
  obtain st1 where f: "final = report argv (length (filteredRepos argv repos)) st1"
    by (rule main_Completed [OF run lst])
  have "console final =
     (console st1 @
      [[], ''Successfully processed repositories: '' @ show_nat (successfullyProcessed st1)
            @ '' out of '' @ show_nat (length (filteredRepos argv repos))]) @
     [''Secret protection: '' @ show_nat (length (secretProtectionCommitters final)),
      ''Code security: '' @ show_nat (length (codeScanningCommitters final))] @
     (if verbose argv then
        ''Secret protection committers:'' # map ((@) '' - '') (sort (secretProtectionCommitters final)) @
        ''Code scanning committers:'' # map ((@) '' - '') (sort (codeScanningCommitters final))
      else [])"
    unfolding f report_console report_fields by simp
  then show ?thesis by blast
qed

subsection \<open>Flags that are set and iterations that are cut short\<close>

lemma for_of_Inr_each:
  assumes "for_of body i xs st = Inr st'" and "x \<in> set xs"
  shows "\<exists>j s s'. body j x s = Inr s'"
  using assms
proof (induction xs arbitrary: i st)
  case Nil
  then show ?case by simp
next
  case (Cons y ys)
  from Cons.prems(1) obtain st1 where b: "body i y st = Inr st1"
    and l: "for_of body (Suc i) ys st1 = Inr st'"
    by (auto split: sum.splits)
  show ?case
  proof (cases "x = y")
    case True
    with b show ?thesis by blast
  next
    case False
    with Cons.prems(2) have "x \<in> set ys" by simp
    from Cons.IH [OF l this] show ?thesis .
  qed
qed

lemma loop_body_Inr_not_Throw:
  assumes "loop_body api argv i r st = Inr st'"
    and "reaches_configuration argv r"
    and "try_configuration api (owner_of r) (repo_of r) (False, False) = Some (sp, cs)"
  shows "check_repo_settings api (name r) sp \<noteq> Throw"
proof
  assume "check_repo_settings api (name r) sp = Throw"
  with assms show False
    by (auto simp: loop_body_def Let_def owner_of_def repo_of_def reaches_configuration_def)
qed

lemma check_repo_settings_True: "check_repo_settings api nm True = Next True"
  by (simp add: check_repo_settings_def)

lemma secret_protection_flag_set_determined:
  "secret_protection_flag_set api argv r \<Longrightarrow> secret_scanning_determined api argv r"
  by (auto simp: secret_protection_flag_set_def secret_scanning_determined_def
      check_repo_settings_True split: option.splits)

lemma code_scanning_flag_set_determined:
  assumes "code_scanning_flag_set api argv r"
    and "\<not> skipped_at_settings api argv r"
    and "loop_body api argv i r st = Inr st'"
  shows "code_scanning_determined api argv r"
proof -
  from assms(1) have reach: "reaches_configuration argv r"
    by (simp add: code_scanning_flag_set_def)
  from assms(1) obtain sp cs where
    t: "try_configuration api (owner_of r) (repo_of r) (False, False) = Some (sp, cs)"
    by (auto simp: code_scanning_flag_set_def split: option.splits)
  from loop_body_Inr_not_Throw [OF assms(3) reach t]
  have nt: "check_repo_settings api (name r) sp \<noteq> Throw" .
  from assms(2) reach t have nc: "check_repo_settings api (name r) sp \<noteq> Continue"
    by (simp add: skipped_at_settings_def)
  from nt nc obtain sp' where n: "check_repo_settings api (name r) sp = Next sp'"
    by (cases "check_repo_settings api (name r) sp") simp_all
  from assms(1) reach t n
  have "cs \<or> probe_analyses api (owner_of r) (repo_of r) cs = Some True"
    by (simp add: code_scanning_flag_set_def)
  then have "probe_analyses api (owner_of r) (repo_of r) cs = Some True"
    by (auto simp: probe_analyses_def)
  with reach t n show ?thesis
    by (simp add: code_scanning_determined_def)
qed

section \<open>The claims\<close>

text \<open>
  C1, as the code has it: when the configuration request of a repository rejects, the
  iteration ends there. The counter and both sets are as before, and nothing the settings
  request or the analyses request would answer can change the outcome, since neither is
  issued.
\<close>

theorem C1_configuration_failure_skips_repository:
  assumes "code_security_configuration api (owner_of r) (repo_of r) = Rejected"
  shows "(\<exists>st'. loop_body api argv i r st = Inr st' \<and>
            successfullyProcessed st' = successfullyProcessed st \<and>
            secretProtectionCommitters st' = secretProtectionCommitters st \<and>
            codeScanningCommitters st' = codeScanningCommitters st) \<and>
         loop_body (api\<lparr>repos_get := g, listRecentAnalyses := l\<rparr>) argv i r st =
           loop_body api argv i r st"
proof -
  from assms have none: "try_configuration api (owner_of r) (repo_of r) (False, False) = None"
    by (simp add: try_configuration_None)
  have none': "try_configuration (api\<lparr>repos_get := g, listRecentAnalyses := l\<rparr>)
                 (owner_of r) (repo_of r) (False, False) = None"
    using assms by (simp add: try_configuration_None)
  show ?thesis
    using none none'
    by (simp add: loop_body_def Let_def console_log_def owner_of_def repo_of_def)
qed

theorem C1_witness:
  "loop_body api_configuration_rejected quiet_argv 0 repo1 initial = Inr initial"
proof -
  have "code_security_configuration api_configuration_rejected (owner_of repo1) (repo_of repo1)
          = Rejected"
    by (simp add: api_configuration_rejected_def)
  from C1_configuration_failure_skips_repository [OF this, of quiet_argv 0 initial]
  obtain st' where "loop_body api_configuration_rejected quiet_argv 0 repo1 initial = Inr st'"
    by blast
  moreover have "loop_body api_configuration_rejected quiet_argv 0 repo1 initial = Inr initial"
    by code_simp
  ultimately show ?thesis by simp
qed

text \<open>
  C1 as stated fails: the configuration request rejects, the settings would report secret
  scanning enabled and an analysis exists, yet the run ends with both sets empty.
\<close>

theorem C1_counterexample:
  "code_security_configuration api_configuration_rejected (owner_of repo1) (repo_of repo1)
     = Rejected \<and>
   repos_get api_configuration_rejected (owner_of repo1) (repo_of repo1)
     = Resolved \<lparr>http_status = 200, secret_scanning_status = ''enabled''\<rparr> \<and>
   listRecentAnalyses api_configuration_rejected (owner_of repo1) (repo_of repo1)
     = Resolved (Some [\<lparr>analysis_id = 7\<rparr>]) \<and>
   fst (main api_configuration_rejected quiet_argv) = Completed \<and>
   secretProtectionCommitters (snd (main api_configuration_rejected quiet_argv)) = [] \<and>
   codeScanningCommitters (snd (main api_configuration_rejected quiet_argv)) = []"
  by code_simp

text \<open>
  C2: the code does not do what the claim says when the settings request fails. The
  request of line 153 is outside every \<open>try\<close>: when it is answered with an error status
  the client rejects, the rejection is uncaught and the run ends at that repository, with
  no error line, no later repository and no report. The status test of lines 158 to 161
  is reached only by a response that resolved, and its error line is written without the
  verbose flag.
\<close>

theorem C2_settings_failure_ends_run:
  "verbose quiet_argv = False \<and>
   repos_get api_settings_rejected (owner_of repo1) (repo_of repo1) = Rejected \<and>
   main api_settings_rejected quiet_argv =
     (Unhandled,
      \<lparr>secretProtectionCommitters = [], codeScanningCommitters = [],
       successfullyProcessed = 1,
       console = [''Total active committers: 2'', ''Max active committers: 2'',
                  ''Purchased committers: 5'', [], ''Number of repos: 2'', []]\<rparr>) \<and>
   repos_get api_settings_not_ok (owner_of repo1) (repo_of repo1)
     = Resolved \<lparr>http_status = 202, secret_scanning_status = ''enabled''\<rparr> \<and>
   fst (main api_settings_not_ok quiet_argv) = Completed \<and>
   console (snd (main api_settings_not_ok quiet_argv)) ! 6
     = ''Error fetching repo settings for acme/repo1''"
  by code_simp

text \<open>
  C3, as the code has it: in a run that completes, a login in the breakdown of any
  considered repository in whose iteration the flag of a tool is set occurs exactly once
  in that tool's final set, however many such repositories list it, provided, for code
  scanning, that the iteration is not ended by the \<open>continue\<close> of line 160 before it
  arrives at the code-scanning step. Neither set repeats a login, and the two counts
  written are the numbers of different logins.
\<close>

theorem C3_each_login_counted_once:
  assumes "main api argv = (Completed, final)"
    and "billing_repositories api (template (enterprise argv)) = Resolved repos"
  shows "(\<forall>r \<in> set (filteredRepos argv repos). \<forall>l \<in> logins r.
            (secret_protection_flag_set api argv r \<longrightarrow>
               count_list (secretProtectionCommitters final) l = 1) \<and>
            (code_scanning_flag_set api argv r \<and> \<not> skipped_at_settings api argv r \<longrightarrow>
               count_list (codeScanningCommitters final) l = 1)) \<and>
         distinct (secretProtectionCommitters final) \<and>
         distinct (codeScanningCommitters final) \<and>
         (\<exists>pre post. console final =
            pre @
            [''Secret protection: '' @ show_nat (card (set (secretProtectionCommitters final))),
             ''Code security: '' @ show_nat (card (set (codeScanningCommitters final)))] @
            post)"
proof -
  obtain st0 st1 where
    st0: "secretProtectionCommitters st0 = []" "codeScanningCommitters st0 = []"
    and l: "for_of (loop_body api argv) 0 (filteredRepos argv repos) st0 = Inr st1"
    and f: "final = report argv (length (filteredRepos argv repos)) st1"
    by (rule main_Completed [OF assms])
  note d = main_Completed_distinct [OF assms(1)]
  have mem: "l \<in> set (secretProtectionCommitters final)"
    if "r \<in> set (filteredRepos argv repos)" "l \<in> logins r"
      "secret_protection_flag_set api argv r" for r l
    using for_of_loop_body(1)[OF l] that f secret_protection_flag_set_determined
    by (auto simp: report_fields)
  have mem': "l \<in> set (codeScanningCommitters final)"
    if r: "r \<in> set (filteredRepos argv repos)" and "l \<in> logins r"
      and c: "code_scanning_flag_set api argv r" "\<not> skipped_at_settings api argv r" for r l
  proof -
    from for_of_Inr_each [OF l r] obtain j s s' where "loop_body api argv j r s = Inr s'"
      by blast
    from code_scanning_flag_set_determined [OF c this]
    have "code_scanning_determined api argv r" .
    with for_of_loop_body(2)[OF l] that f show ?thesis
      by (auto simp: report_fields)
  qed
  have once: "\<forall>r \<in> set (filteredRepos argv repos). \<forall>l \<in> logins r.
            (secret_protection_flag_set api argv r \<longrightarrow>
               count_list (secretProtectionCommitters final) l = 1) \<and>
            (code_scanning_flag_set api argv r \<and> \<not> skipped_at_settings api argv r \<longrightarrow>
               count_list (codeScanningCommitters final) l = 1)"
    using mem mem' d by (blast intro: count_list_distinct)
  from main_Completed_console [OF assms(1)] obtain pre where
    "console final =
     pre @
     [''Secret protection: '' @ show_nat (length (secretProtectionCommitters final)),
      ''Code security: '' @ show_nat (length (codeScanningCommitters final))] @
     (if verbose argv then
        ''Secret protection committers:'' # map ((@) '' - '') (sort (secretProtectionCommitters final)) @
        ''Code scanning committers:'' # map ((@) '' - '') (sort (codeScanningCommitters final))
      else [])"
    by blast
  then have "\<exists>pre post. console final =
            pre @
            [''Secret protection: '' @ show_nat (card (set (secretProtectionCommitters final))),
             ''Code security: '' @ show_nat (card (set (codeScanningCommitters final)))] @
            post"
    unfolding distinct_card [OF d(1)] distinct_card [OF d(2)] by blast
  with once d show ?thesis by blast
qed

theorem C3_witness:
  "secret_protection_flag_set api_shared_committer quiet_argv repo1 \<and>
   secret_protection_flag_set api_shared_committer quiet_argv repo2 \<and>
   secret_protection_flag_set api_shared_committer quiet_argv repo4 \<and>
   code_scanning_flag_set api_shared_committer quiet_argv repo1 \<and>
   code_scanning_flag_set api_shared_committer quiet_argv repo2 \<and>
   code_scanning_flag_set api_shared_committer quiet_argv repo4 \<and>
   ''bob'' \<in> logins repo1 \<and> ''bob'' \<in> logins repo2 \<and> ''bob'' \<in> logins repo4 \<and>
   count_list (secretProtectionCommitters (snd (main api_shared_committer quiet_argv))) ''bob'' = 1 \<and>
   count_list (codeScanningCommitters (snd (main api_shared_committer quiet_argv))) ''bob'' = 1 \<and>
   secretProtectionCommitters (snd (main api_shared_committer quiet_argv))
     = [''bob'', ''alice'', ''carol'', ''erin'']"
proof -
  have "fst (main api_shared_committer quiet_argv) = Completed"
    by code_simp
  then have run: "main api_shared_committer quiet_argv
                    = (Completed, snd (main api_shared_committer quiet_argv))"
    by (metis prod.collapse)
  have lst: "billing_repositories api_shared_committer (template (enterprise quiet_argv))
               = Resolved [repo1, repo2, repo4]"
    by (simp add: api_shared_committer_def)
  have fr: "filteredRepos quiet_argv [repo1, repo2, repo4] = [repo1, repo2, repo4]"
    by code_simp
  have s: "secret_protection_flag_set api_shared_committer quiet_argv repo1"
    "secret_protection_flag_set api_shared_committer quiet_argv repo2"
    "secret_protection_flag_set api_shared_committer quiet_argv repo4"
    by code_simp+
  have c: "code_scanning_flag_set api_shared_committer quiet_argv repo1"
    "code_scanning_flag_set api_shared_committer quiet_argv repo2"
    "code_scanning_flag_set api_shared_committer quiet_argv repo4"
    by code_simp+
  have k: "\<not> skipped_at_settings api_shared_committer quiet_argv repo1"
    by code_simp
  have b: "''bob'' \<in> logins repo1" "''bob'' \<in> logins repo2" "''bob'' \<in> logins repo4"
    by code_simp+
  have final: "secretProtectionCommitters (snd (main api_shared_committer quiet_argv))
     = [''bob'', ''alice'', ''carol'', ''erin'']"
    by code_simp
  from C3_each_login_counted_once [OF run lst] s(1) c(1) k b(1)
  have "count_list (secretProtectionCommitters (snd (main api_shared_committer quiet_argv)))
          ''bob'' = 1"
    and "count_list (codeScanningCommitters (snd (main api_shared_committer quiet_argv)))
          ''bob'' = 1"
    unfolding fr by auto
  with s c b final show ?thesis by blast
qed

text \<open>
  C3 as stated fails: the attached configuration of the one repository sets
  \<open>codeScanningEnabled\<close> at line 137, the settings request resolves with a status other
  than 200 and line 160 ends the iteration, and \<open>bob\<close> of its breakdown is not in the
  final code-scanning set of the completed run.
\<close>

theorem C3_counterexample:
  "try_configuration api_code_scanning_configured (owner_of repo1) (repo_of repo1) (False, False)
     = Some (False, True) \<and>
   code_scanning_flag_set api_code_scanning_configured quiet_argv repo1 \<and>
   skipped_at_settings api_code_scanning_configured quiet_argv repo1 \<and>
   filteredRepos quiet_argv [repo1] = [repo1] \<and>
   user_login (hd (advanced_security_committers_breakdown repo1)) = ''bob'' \<and>
   fst (main api_code_scanning_configured quiet_argv) = Completed \<and>
   count_list (codeScanningCommitters (snd (main api_code_scanning_configured quiet_argv)))
     ''bob'' = 0"
  by code_simp

text \<open>
  C4: with an organisation given, the repositories whose name does not start with the
  organisation and a slash do not count. Leaving them out of the billing listing changes
  nothing of the run; in a run that completes every login of either set is in the
  breakdown of a listed repository whose name has that prefix, and the fifth line written
  gives the number of listed repositories with that prefix.
\<close>

theorem C4_org_filter_excludes_other_owners:
  assumes "org argv = Some g" and "g \<noteq> []"
  shows "main (without_other_owners argv api) argv = main api argv \<and>
         (\<forall>final repos.
            main api argv = (Completed, final) \<and>
            billing_repositories api (template (enterprise argv)) = Resolved repos \<longrightarrow>
            (\<forall>l \<in> set (secretProtectionCommitters final) \<union> set (codeScanningCommitters final).
               \<exists>r \<in> set repos. prefix (g @ ''/'') (name r) \<and> l \<in> logins r) \<and>
            console final ! 4 =
              ''Number of repos: '' @
              show_nat (length (filter (\<lambda>r. prefix (g @ ''/'') (name r)) repos)))"
proof (intro conjI allI impI)
  from assms have t: "truthy (org argv)"
    by (simp add: truthy_def)
  then show "main (without_other_owners argv api) argv = main api argv"
    by (rule main_without_other_owners)
  from assms have fr: "filteredRepos argv repos = filter (\<lambda>r. prefix (g @ ''/'') (name r)) repos"
    for repos
    by (simp add: filteredRepos_def truthy_def template_def)
  fix final repos
  assume "main api argv = (Completed, final) \<and>
            billing_repositories api (template (enterprise argv)) = Resolved repos"
  then have run: "main api argv = (Completed, final)"
    and lst: "billing_repositories api (template (enterprise argv)) = Resolved repos"
    by blast+
  obtain stats :: billing_stats and st0 st1 where
    st0: "secretProtectionCommitters st0 = []" "codeScanningCommitters st0 = []"
    and c0: "console st0 =
       [''Total active committers: '' @ show_nat (total_advanced_security_committers stats),
        ''Max active committers: '' @ show_nat (maximum_advanced_security_committers stats),
        ''Purchased committers: '' @ show_nat (purchased_advanced_security_committers stats),
        [],
        ''Number of repos: '' @ show_nat (length (filteredRepos argv repos)),
        []]"
    and l: "for_of (loop_body api argv) 0 (filteredRepos argv repos) st0 = Inr st1"
    and f: "final = report argv (length (filteredRepos argv repos)) st1"
    by (rule main_Completed [OF run lst]) (rule that)
  from for_of_loop_body(1,2)[OF l] st0 f
  show "\<forall>l \<in> set (secretProtectionCommitters final) \<union> set (codeScanningCommitters final).
               \<exists>r \<in> set repos. prefix (g @ ''/'') (name r) \<and> l \<in> logins r"
    by (auto simp: report_fields fr)
  from for_of_loop_body(6)[OF l] obtain ls where "console st1 = console st0 @ ls"
    by blast
  with c0 f have "console final ! 4 =
      ''Number of repos: '' @ show_nat (length (filteredRepos argv repos))"
    by (simp add: report_console)
  then show "console final ! 4 =
              ''Number of repos: '' @
              show_nat (length (filter (\<lambda>r. prefix (g @ ''/'') (name r)) repos))"
    by (simp add: fr)
qed

theorem C4_witness:
  "main (without_other_owners scenario_argv scenario_api) scenario_argv
     = main scenario_api scenario_argv \<and>
   console (snd (main scenario_api scenario_argv)) ! 4 = ''Number of repos: 3'' \<and>
   filter (\<lambda>r. prefix (''acme'' @ ''/'') (name r)) [repo1, repo3, repo2, repo4]
     = [repo1, repo2, repo4]"
proof -
  have o: "org scenario_argv = Some ''acme''" and g: "''acme'' \<noteq> []"
    by (simp_all add: scenario_argv_def)
  have "fst (main scenario_api scenario_argv) = Completed"
    by code_simp
  then have run: "main scenario_api scenario_argv
                    = (Completed, snd (main scenario_api scenario_argv))"
    by (metis prod.collapse)
  have lst: "billing_repositories scenario_api (template (enterprise scenario_argv))
               = Resolved [repo1, repo3, repo2, repo4]"
    by (simp add: scenario_api_def)
  have fl: "filter (\<lambda>r. prefix (''acme'' @ ''/'') (name r)) [repo1, repo3, repo2, repo4]
     = [repo1, repo2, repo4]"
    by code_simp
  have n: "''Number of repos: '' @ show_nat (length [repo1, repo2, repo4]) = ''Number of repos: 3''"
    by code_simp
  from C4_org_filter_excludes_other_owners [OF o g, of scenario_api] run lst
  have "main (without_other_owners scenario_argv scenario_api) scenario_argv
     = main scenario_api scenario_argv"
    and "console (snd (main scenario_api scenario_argv)) ! 4 =
              ''Number of repos: '' @
              show_nat (length (filter (\<lambda>r. prefix (''acme'' @ ''/'') (name r))
                                  [repo1, repo3, repo2, repo4]))"
    by blast+
  then show ?thesis
    unfolding fl n using fl by simp
qed

text \<open>
  C5: an iteration adds one to the counter exactly when its configuration request is
  issued and resolves, whatever the response says and whatever happens afterwards; a run
  that completes reports the number of such repositories. When the organisation filter is
  absent or names an organisation without a slash, every considered repository issues the
  request, and the count is the number of considered repositories whose request resolves.
\<close>

theorem C5_counter_counts_resolved_configurations:
  "(\<forall>st'. loop_body api argv i r st = Inr st' \<or> loop_body api argv i r st = Inl st' \<longrightarrow>
      successfullyProcessed st' =
        successfullyProcessed st + (if configuration_fetched api argv r then 1 else 0)) \<and>
   (\<forall>final repos.
      main api argv = (Completed, final) \<and>
      billing_repositories api (template (enterprise argv)) = Resolved repos \<longrightarrow>
      successfullyProcessed final =
        length (filter (configuration_fetched api argv) (filteredRepos argv repos)) \<and>
      (CHR ''/'' \<notin> set (template (org argv)) \<longrightarrow>
       successfullyProcessed final =
         length (filter (\<lambda>r. code_security_configuration api (owner_of r) (repo_of r) \<noteq> Rejected)
                   (filteredRepos argv repos))))"
proof (intro conjI allI impI)
  fix st'
  assume "loop_body api argv i r st = Inr st' \<or> loop_body api argv i r st = Inl st'"
  then show "successfullyProcessed st' =
        successfullyProcessed st + (if configuration_fetched api argv r then 1 else 0)"
    using loop_body_Inr(3) loop_body_Inl by blast
next
  fix final repos
  assume a: "main api argv = (Completed, final) \<and>
      billing_repositories api (template (enterprise argv)) = Resolved repos"
  then obtain st0 st1 where st0: "successfullyProcessed st0 = 0"
    and l: "for_of (loop_body api argv) 0 (filteredRepos argv repos) st0 = Inr st1"
    and f: "final = report argv (length (filteredRepos argv repos)) st1"
    by (auto elim: main_Completed)
  from for_of_loop_body(5)[OF l] st0 f
  show n: "successfullyProcessed final =
        length (filter (configuration_fetched api argv) (filteredRepos argv repos))"
    by (simp add: report_fields)
  assume "CHR ''/'' \<notin> set (template (org argv))"
  then have "\<forall>r \<in> set (filteredRepos argv repos).
      configuration_fetched api argv r =
        (code_security_configuration api (owner_of r) (repo_of r) \<noteq> Rejected)"
    by (auto simp: configuration_fetched_def filteredRepos_reach split: response.splits)
  then have "filter (configuration_fetched api argv) (filteredRepos argv repos) =
      filter (\<lambda>r. code_security_configuration api (owner_of r) (repo_of r) \<noteq> Rejected)
        (filteredRepos argv repos)"
    by (intro filter_cong) auto
  with n show "successfullyProcessed final =
         length (filter (\<lambda>r. code_security_configuration api (owner_of r) (repo_of r) \<noteq> Rejected)
                   (filteredRepos argv repos))"
    by simp
qed

theorem C5_witness:
  "fst (main scenario_api scenario_argv) = Completed \<and>
   successfullyProcessed (snd (main scenario_api scenario_argv)) = 2 \<and>
   filter (\<lambda>r. code_security_configuration scenario_api (owner_of r) (repo_of r) \<noteq> Rejected)
     (filteredRepos scenario_argv [repo1, repo3, repo2, repo4]) = [repo1, repo2]"
proof -
  have c: "fst (main scenario_api scenario_argv) = Completed"
    by code_simp
  then have run: "main scenario_api scenario_argv
                    = (Completed, snd (main scenario_api scenario_argv))"
    by (metis prod.collapse)
  have lst: "billing_repositories scenario_api (template (enterprise scenario_argv))
               = Resolved [repo1, repo3, repo2, repo4]"
    by (simp add: scenario_api_def)
  have slash: "CHR ''/'' \<notin> set (template (org scenario_argv))"
    by code_simp
  have fl: "filter (\<lambda>r. code_security_configuration scenario_api (owner_of r) (repo_of r) \<noteq> Rejected)
     (filteredRepos scenario_argv [repo1, repo3, repo2, repo4]) = [repo1, repo2]"
    by code_simp
  from C5_counter_counts_resolved_configurations [of scenario_api scenario_argv 0 repo1 initial]
    run lst slash
  have "successfullyProcessed (snd (main scenario_api scenario_argv)) =
         length (filter (\<lambda>r. code_security_configuration scenario_api (owner_of r) (repo_of r) \<noteq> Rejected)
                   (filteredRepos scenario_argv [repo1, repo3, repo2, repo4]))"
    by blast
  with c fl show ?thesis by simp
qed

text \<open>
  C6: when the configuration request resolves with status \<open>attached\<close>, the two flags, both
  false before, become true exactly when \<open>configuration.secret_scanning\<close>, respectively
  \<open>configuration.code_scanning_default_setup\<close>, is \<open>enabled\<close>.
\<close>

theorem C6_attached_configuration_sets_flags:
  assumes "code_security_configuration api owner repo = Resolved config"
    and "status config = ''attached''"
  shows "try_configuration api owner repo (False, False) =
           Some (secret_scanning (configuration config) = ''enabled'',
                 code_scanning_default_setup (configuration config) = ''enabled'')"
  using assms by (simp add: try_configuration_def)

theorem C6_witness:
  "try_configuration scenario_api (Some ''acme'') (Some ''repo1'') (False, False)
     = Some (True, False)"
  using C6_attached_configuration_sets_flags
          [of scenario_api "Some ''acme''" "Some ''repo1''"
              "\<lparr>status = ''attached'',
                configuration = \<lparr>secret_scanning = ''enabled'',
                                 code_scanning_default_setup = ''disabled''\<rparr>\<rparr>"]
  by (simp add: scenario_api_def)

text \<open>
  C7, as the code has it: in an iteration that arrives at the code-scanning step with
  \<open>codeScanningEnabled\<close> false (the configuration request resolved without enabling it and
  the secret-scanning step neither skipped the repository nor ended the run), the analyses
  request decides. Code scanning counts as enabled exactly when the request resolves with
  at least one analysis, and then the committers are added; when the request rejects, the
  iteration ends with no line written, the code-scanning set as before, and the counter
  still incremented.
\<close>

theorem C7_probe_at_code_scanning_step:
  assumes "reaches_configuration argv r"
    and "try_configuration api (owner_of r) (repo_of r) (False, False) = Some (sp, False)"
    and "check_repo_settings api (name r) sp = Next sp'"
  shows "(code_scanning_determined api argv r \<longleftrightarrow>
            (\<exists>d. listRecentAnalyses api (owner_of r) (repo_of r) = Resolved (Some d) \<and> d \<noteq> [])) \<and>
         (\<exists>st'. loop_body api argv i r st = Inr st' \<and>
            codeScanningCommitters st' =
              (if code_scanning_determined api argv r
               then add_committers (advanced_security_committers_breakdown r)
                      (codeScanningCommitters st)
               else codeScanningCommitters st) \<and>
            successfullyProcessed st' = successfullyProcessed st + 1 \<and>
            console st' =
              console st
              @ (if verbose argv then [''Repo '' @ show_nat (i + 1) @ '': '' @ name r] else []))"
proof -
  have probe: "probe_analyses api (owner_of r) (repo_of r) False = Some True \<longleftrightarrow>
      (\<exists>d. listRecentAnalyses api (owner_of r) (repo_of r) = Resolved (Some d) \<and> d \<noteq> [])"
    by (auto simp: probe_analyses_def split: response.splits option.splits)
  have det: "code_scanning_determined api argv r \<longleftrightarrow>
      probe_analyses api (owner_of r) (repo_of r) False = Some True"
    using assms by (simp add: code_scanning_determined_def)
  have run: "\<exists>st'. loop_body api argv i r st = Inr st' \<and>
            codeScanningCommitters st' =
              (if probe_analyses api (owner_of r) (repo_of r) False = Some True
               then add_committers (advanced_security_committers_breakdown r)
                      (codeScanningCommitters st)
               else codeScanningCommitters st) \<and>
            successfullyProcessed st' = successfullyProcessed st + 1 \<and>
            console st' =
              console st
              @ (if verbose argv then [''Repo '' @ show_nat (i + 1) @ '': '' @ name r] else [])"
  proof (cases "probe_analyses api (owner_of r) (repo_of r) False")
    case None
    with assms show ?thesis
      by (cases sp')
        (auto simp: loop_body_def Let_def console_log_def owner_of_def repo_of_def
          reaches_configuration_def)
  next
    case (Some cs')
    with assms show ?thesis
      by (cases sp'; cases cs')
        (auto simp: loop_body_def Let_def console_log_def owner_of_def repo_of_def
          reaches_configuration_def)
  qed
  show ?thesis
    using probe det run by simp
qed

theorem C7_witness:
  "code_scanning_determined scenario_api scenario_argv repo2 \<and>
   listRecentAnalyses scenario_api (owner_of repo2) (repo_of repo2)
     = Resolved (Some [\<lparr>analysis_id = 1\<rparr>])"
proof -
  have 1: "reaches_configuration scenario_argv repo2"
    by code_simp
  have 2: "try_configuration scenario_api (owner_of repo2) (repo_of repo2) (False, False)
             = Some (False, False)"
    by code_simp
  have 3: "check_repo_settings scenario_api (name repo2) False = Next False"
    by code_simp
  have 4: "listRecentAnalyses scenario_api (owner_of repo2) (repo_of repo2)
             = Resolved (Some [\<lparr>analysis_id = 1\<rparr>])"
    by code_simp
  from C7_probe_at_code_scanning_step [OF 1 2 3, of 0 initial] 4
  show ?thesis by simp
qed

text \<open>
  C7 as stated fails: after the configuration step \<open>codeScanningEnabled\<close> is false and an
  analysis exists, but the settings request resolved with a status other than 200, the
  iteration ended there, and the code-scanning set stays empty.
\<close>

theorem C7_counterexample:
  "try_configuration api_settings_not_ok (owner_of repo1) (repo_of repo1) (False, False)
     = Some (False, False) \<and>
   listRecentAnalyses api_settings_not_ok (owner_of repo1) (repo_of repo1)
     = Resolved (Some [\<lparr>analysis_id = 7\<rparr>]) \<and>
   fst (main api_settings_not_ok quiet_argv) = Completed \<and>
   codeScanningCommitters (snd (main api_settings_not_ok quiet_argv)) = []"
  by code_simp

text \<open>
  C8: in verbose mode a run that completes ends its output with the two committer
  lists, each in ascending lexicographic order and without a repeated login, and each
  holding exactly the logins of its set.
\<close>

theorem C8_verbose_lists_sorted_without_duplicates:
  assumes "verbose argv" and "main api argv = (Completed, final)"
  shows "\<exists>pre xs ys.
           console final =
             pre @ ''Secret protection committers:'' # map ((@) '' - '') xs
                 @ ''Code scanning committers:'' # map ((@) '' - '') ys \<and>
           sorted xs \<and> distinct xs \<and> set xs = set (secretProtectionCommitters final) \<and>
           sorted ys \<and> distinct ys \<and> set ys = set (codeScanningCommitters final)"
proof -
  note d = main_Completed_distinct [OF assms(2)]
  from main_Completed_console [OF assms(2)] assms(1) obtain pre where
    "console final =
     (pre @
     [''Secret protection: '' @ show_nat (length (secretProtectionCommitters final)),
      ''Code security: '' @ show_nat (length (codeScanningCommitters final))]) @
        ''Secret protection committers:'' # map ((@) '' - '') (sort (secretProtectionCommitters final)) @
        ''Code scanning committers:'' # map ((@) '' - '') (sort (codeScanningCommitters final))"
    by auto
  moreover have "sorted (sort (secretProtectionCommitters final))"
    "distinct (sort (secretProtectionCommitters final))"
    "set (sort (secretProtectionCommitters final)) = set (secretProtectionCommitters final)"
    "sorted (sort (codeScanningCommitters final))"
    "distinct (sort (codeScanningCommitters final))"
    "set (sort (codeScanningCommitters final)) = set (codeScanningCommitters final)"
    using d by simp_all
  ultimately show ?thesis by blast
qed

theorem C8_witness:
  "verbose scenario_argv \<and>
   drop 14 (console (snd (main scenario_api scenario_argv))) =
     [''Secret protection committers:'', '' - alice'', '' - bob'',
      ''Code scanning committers:'', '' - bob'', '' - carol''] \<and>
   secretProtectionCommitters (snd (main scenario_api scenario_argv)) = [''bob'', ''alice'']"
proof -
  have v: "verbose scenario_argv"
    by (simp add: scenario_argv_def)
  have "fst (main scenario_api scenario_argv) = Completed"
    by code_simp
  then have run: "main scenario_api scenario_argv
                    = (Completed, snd (main scenario_api scenario_argv))"
    by (metis prod.collapse)
  from C8_verbose_lists_sorted_without_duplicates [OF v run]
  have "\<exists>pre xs ys. console (snd (main scenario_api scenario_argv)) =
             pre @ ''Secret protection committers:'' # map ((@) '' - '') xs
                 @ ''Code scanning committers:'' # map ((@) '' - '') ys"
    by blast
  moreover have "drop 14 (console (snd (main scenario_api scenario_argv))) =
     [''Secret protection committers:'', '' - alice'', '' - bob'',
      ''Code scanning committers:'', '' - bob'', '' - carol'']"
    by code_simp
  moreover have "secretProtectionCommitters (snd (main scenario_api scenario_argv))
      = [''bob'', ''alice'']"
    by code_simp
  ultimately show ?thesis using v by blast
qed

text \<open>
  C9: the two \<open>continue\<close> statements under the owner test behave as one. The run with the
  iteration as the source writes it and the run with a single unconditional skip end the
  same way, with the same sets, counter and console lines.
\<close>

theorem C9_duplicate_continue_is_single_skip:
  "main_single_skip api argv = main api argv"
proof -
  have "loop_body_single_skip api' argv' i r st = loop_body api' argv' i r st"
    for api' argv' i r st
    unfolding loop_body_single_skip_def loop_body_def if_cancel by (rule refl)
  then have "loop_body_single_skip = loop_body"
    by (intro ext)
  then show ?thesis
    by (simp add: main_single_skip_def main_def)
qed

text \<open>
  C10: in a run that completes, every login of the final secret-scanning set is in the
  breakdown of a considered repository whose iteration found secret scanning enabled, and
  likewise for the code-scanning set.
\<close>

theorem C10_sets_hold_only_committers_of_enabled_repositories:
  assumes "main api argv = (Completed, final)"
    and "billing_repositories api (template (enterprise argv)) = Resolved repos"
  shows "(\<forall>l \<in> set (secretProtectionCommitters final).
            \<exists>r \<in> set (filteredRepos argv repos).
              secret_scanning_determined api argv r \<and> l \<in> logins r) \<and>
         (\<forall>l \<in> set (codeScanningCommitters final).
            \<exists>r \<in> set (filteredRepos argv repos).
              code_scanning_determined api argv r \<and> l \<in> logins r)"
proof -
  from assms obtain st0 st1 where
    st0: "secretProtectionCommitters st0 = []" "codeScanningCommitters st0 = []"
    and l: "for_of (loop_body api argv) 0 (filteredRepos argv repos) st0 = Inr st1"
    and f: "final = report argv (length (filteredRepos argv repos)) st1"
    by (auto elim: main_Completed)
  from for_of_loop_body(1,2)[OF l] st0 f show ?thesis
    by (auto simp: report_fields)
qed

theorem C10_witness:
  "''alice'' \<in> set (secretProtectionCommitters (snd (main scenario_api scenario_argv))) \<and>
   (\<exists>r. r \<in> set (filteredRepos scenario_argv [repo1, repo3, repo2, repo4]) \<and>
        secret_scanning_determined scenario_api scenario_argv r \<and> ''alice'' \<in> logins r)"
proof -
  have "fst (main scenario_api scenario_argv) = Completed"
    by code_simp
  then have run: "main scenario_api scenario_argv
                    = (Completed, snd (main scenario_api scenario_argv))"
    by (metis prod.collapse)
  have lst: "billing_repositories scenario_api (template (enterprise scenario_argv))
               = Resolved [repo1, repo3, repo2, repo4]"
    by (simp add: scenario_api_def)
  have a: "''alice'' \<in> set (secretProtectionCommitters (snd (main scenario_api scenario_argv)))"
    by code_simp
  with C10_sets_hold_only_committers_of_enabled_repositories [OF run lst]
  show ?thesis by blast
qed

end
